theory Spec2Isabelle
  imports Main "HOL-Library.Word"
begin

unbundle bit_operations_syntax

section \<open>The capture engine of pyvac248ipnative.c\<close>

text \<open>
  A shallow embedding of \<^verbatim>\<open>pyvac248ipnative_capture_packets\<close> and of the helpers it
  calls. The C \<^verbatim>\<open>int\<close> variables are \<open>int\<close>, bytes are \<open>8 word\<close>, the
  \<^verbatim>\<open>unsigned int\<close> arguments of the command encoder are \<open>32 word\<close>. The memory
  behind the pointer \<^verbatim>\<open>dst\<close> is a store from byte offsets to bytes. The operating
  system is an explicit environment: what every system call returned is an input of the
  model, and the socket is a record of the options the function touches. The \<open>int\<close>
  values do not wrap around: the products \<^verbatim>\<open>packets_received_ * 1473\<close> and
  \<^verbatim>\<open>1468 * (frame_packets - 1)\<close> and the counter of malformed datagrams are taken
  to stay in the range of a C \<^verbatim>\<open>int\<close>. The sleeps of the source take time and
  change nothing else; the drain reads into a buffer of its own; the results of both, and
  of \<^verbatim>\<open>sendto\<close>, are not looked at by the source.
\<close>

subsection \<open>Constants of the source\<close>

definition DATA_PACKET_SIZE :: int where
  "DATA_PACKET_SIZE = 1472"

definition CONFIG_PACKET_SIZE :: int where
  "CONFIG_PACKET_SIZE = 48"

subsection \<open>Command encoder\<close>

text \<open>
  \<^verbatim>\<open>pyvac248ipnative_impl_send_command_\<close> fills \<^verbatim>\<open>buf\<close> and hands it to
  \<^verbatim>\<open>sendto\<close>; \<open>send_command_buf\<close> is that buffer. The three macros of the source
  fix the opcode and the payload. \<^verbatim>\<open>video_format\<close> is an \<^verbatim>\<open>int\<close> and
  \<^verbatim>\<open>exposure\<close> a \<^verbatim>\<open>uint8_t\<close>; both are converted to \<^verbatim>\<open>unsigned int\<close>
  at the call, which is \<open>word_of_int\<close> and \<open>ucast\<close>.
\<close>

definition send_command_buf :: "32 word \<Rightarrow> 32 word \<Rightarrow> 8 word list" where
  "send_command_buf command data =
     [ucast (command AND 0xff), ucast (data AND 0xff), 0, 0, 0, 0, 0,
      ucast ((command + data) AND 0xff)]"

definition send_command_start :: "int \<Rightarrow> 8 word list" where
  "send_command_start format = send_command_buf 0x5a (word_of_int (format OR 0x80))"

definition send_command_stop :: "8 word list" where
  "send_command_stop = send_command_buf 0x5a 0x00"

definition send_command_exposure :: "8 word \<Rightarrow> 8 word list" where
  "send_command_exposure exposure = send_command_buf 0xc0 (ucast exposure)"

subsection \<open>The socket and the system calls\<close>

text \<open>
  C division truncates towards zero and the remainder takes the sign of the dividend.
\<close>

definition c_div :: "int \<Rightarrow> int \<Rightarrow> int" where
  "c_div a b = sgn a * sgn b * (\<bar>a\<bar> div \<bar>b\<bar>)"

definition c_mod :: "int \<Rightarrow> int \<Rightarrow> int" where
  "c_mod a b = sgn a * (\<bar>a\<bar> mod \<bar>b\<bar>)"

text \<open>A \<^verbatim>\<open>struct timeval\<close>: seconds and microseconds.\<close>

type_synonym timeval = "int \<times> int"

record socket =
  fl :: int
  rcvtimeo :: timeval
  sndtimeo :: timeval

text \<open>
  The environment of one call. A field \<open>\<dots>_errno\<close> is \<open>None\<close> when the system call
  succeeds and \<open>Some e\<close> when it returns a negative value and leaves \<open>e\<close> in
  \<^verbatim>\<open>errno\<close>. \<open>o_nonblock\<close> is the platform's value of \<^verbatim>\<open>O_NONBLOCK\<close>.
  A successful \<^verbatim>\<open>F_SETFL\<close> stores its argument as the socket's flags, a successful
  \<^verbatim>\<open>setsockopt\<close> stores the timeout, and a failed call changes nothing.
  \<^verbatim>\<open>sendto\<close>, \<^verbatim>\<open>recvfrom\<close>, \<^verbatim>\<open>poll\<close> and \<^verbatim>\<open>nanosleep\<close> leave
  the flags and the timeouts alone.
\<close>

datatype event =
    Poll_Timeout
  | Poll_Error int
  | Recv_Error int
  | Datagram "32 word" "8 word list"

text \<open>
  One event is what one iteration of the receive loop gets from the system:
  \<open>Poll_Timeout\<close> is \<^verbatim>\<open>poll\<close> returning 0; \<open>Poll_Error e\<close> is \<^verbatim>\<open>poll\<close>
  returning neither 1 nor 0, with \<^verbatim>\<open>errno\<close> \<open>e\<close>; \<open>Recv_Error e\<close> is
  \<^verbatim>\<open>poll\<close> returning 1 and \<^verbatim>\<open>recvfrom\<close> a negative value, with \<^verbatim>\<open>errno\<close>
  \<open>e\<close>; \<open>Datagram src bytes\<close> is \<^verbatim>\<open>poll\<close> returning 1 and \<^verbatim>\<open>recvfrom\<close>
  storing \<open>bytes\<close> in the buffer it was given, with \<open>src\<close> the value the loop then
  finds in \<^verbatim>\<open>src_sockaddr.sin_addr.s_addr\<close> (the source passes
  \<^verbatim>\<open>src_sockaddr_len\<close> to \<^verbatim>\<open>recvfrom\<close> without a value; the model takes
  the address the loop reads as given).
\<close>

record env =
  o_nonblock :: int
  getfl_errno :: "int option"
  setfl_errno :: "int option"
  events :: "event list"
  restore_setfl_errno :: "int option"
  rcvtimeo_errno :: "int option"
  sndtimeo_errno :: "int option"

text \<open>
  \<^verbatim>\<open>fcntl(socket_fd, F_GETFL, 0)\<close>: the flags, or a negative value.
\<close>

definition fcntl_getfl :: "int option \<Rightarrow> socket \<Rightarrow> int" where
  "fcntl_getfl failure sk = (case failure of Some e \<Rightarrow> - 1 | None \<Rightarrow> fl sk)"

text \<open>
  \<^verbatim>\<open>fcntl(socket_fd, F_SETFL, v)\<close>: the error code if it failed, and the socket
  after the call.
\<close>

definition fcntl_setfl :: "int option \<Rightarrow> int \<Rightarrow> socket \<Rightarrow> int option \<times> socket" where
  "fcntl_setfl failure v sk =
     (case failure of Some e \<Rightarrow> (Some e, sk) | None \<Rightarrow> (None, sk\<lparr>fl := v\<rparr>))"

text \<open>
  \<^verbatim>\<open>pyvac248ipnative_impl_set_socket_timeout_\<close>: \<^verbatim>\<open>SO_RCVTIMEO\<close> first, and
  \<^verbatim>\<open>SO_SNDTIMEO\<close> only if that succeeded (the \<^verbatim>\<open>||\<close> of the source).
\<close>

definition timeval_of_ms :: "int \<Rightarrow> timeval" where
  "timeval_of_ms timeout_ms = (c_div timeout_ms 1000, c_mod timeout_ms 1000 * 1000)"

definition set_socket_timeout :: "env \<Rightarrow> int \<Rightarrow> socket \<Rightarrow> int option \<times> socket" where
  "set_socket_timeout en timeout_ms sk =
     (let timeout = timeval_of_ms timeout_ms in
      case rcvtimeo_errno en of
        Some e \<Rightarrow> (Some e, sk)
      | None \<Rightarrow>
          (case sndtimeo_errno en of
             Some e \<Rightarrow> (Some e, sk\<lparr>rcvtimeo := timeout\<rparr>)
           | None \<Rightarrow> (None, sk\<lparr>rcvtimeo := timeout, sndtimeo := timeout\<rparr>)))"

subsection \<open>The output buffer\<close>

type_synonym memory = "int \<Rightarrow> 8 word"

text \<open>
  \<^verbatim>\<open>recvfrom\<close> stores the bytes it received from \<open>off\<close> on.
\<close>

definition store_bytes :: "memory \<Rightarrow> int \<Rightarrow> 8 word list \<Rightarrow> memory" where
  "store_bytes m off bs =
     (\<lambda>a. if off \<le> a \<and> a < off + int (length bs) then bs ! nat (a - off) else m a)"

text \<open>
  The loop of the source that sets the default packet type:
  \<^verbatim>\<open>for (p = dst_casted; p < dst_casted + dst_size; p += 1472 + 1) *p = 0;\<close>
  with \<open>p\<close> as an offset from \<^verbatim>\<open>dst_casted\<close>.
\<close>

function zero_markers :: "int \<Rightarrow> int \<Rightarrow> memory \<Rightarrow> memory" where
  "zero_markers p dst_size m =
     (if p < dst_size then zero_markers (p + (DATA_PACKET_SIZE + 1)) dst_size (m(p := 0))
      else m)"
  by pat_completeness auto
termination
  by (relation "measure (\<lambda>(p, dst_size, m). nat (dst_size - p))")
     (auto simp: DATA_PACKET_SIZE_def)

declare zero_markers.simps [simp del]

subsection \<open>The receive loop\<close>

record config =
  dst_size :: int
  frames :: int
  frame_packets :: int
  camera_ip :: "32 word"
  video_format :: int
  max_incorrect_length_packets :: int
  network_operation_timeout_ms :: int
  exposure :: "8 word"

record loop_state =
  packets_received_loc :: int
  incorrect_packets_length :: int
  result :: int
  errno_loc :: int
  dst :: memory

datatype flow = Continue loop_state | Break loop_state

text \<open>
  The body of \<^verbatim>\<open>while (packets_received_ < dst_size)\<close>. The locals
  \<^verbatim>\<open>packets_received_\<close> and \<^verbatim>\<open>errno_\<close> of the source are the fields
  \<open>packets_received_loc\<close> and \<open>errno_loc\<close>. \<open>Continue\<close> is the next
  test of the loop condition, reached by \<^verbatim>\<open>continue\<close> or through
  \<^verbatim>\<open>++packets_received_\<close> at the end of the body; \<open>Break\<close> is \<^verbatim>\<open>break\<close>.
  \<^verbatim>\<open>recvfrom\<close> is given 1472 bytes of room at \<^verbatim>\<open>packet_buffer\<close>, so it stores
  and reports at most that many.
\<close>

definition loop_body :: "config \<Rightarrow> event \<Rightarrow> loop_state \<Rightarrow> flow" where
  "loop_body c e s =
     (let packet_buffer_offset = packets_received_loc s * (DATA_PACKET_SIZE + 1);
          packet_buffer = packet_buffer_offset + 1
      in case e of
           Poll_Timeout \<Rightarrow> Break (s\<lparr>result := 1\<rparr>)
         | Poll_Error en \<Rightarrow> Break (s\<lparr>result := - 1, errno_loc := en\<rparr>)
         | Recv_Error en \<Rightarrow> Break (s\<lparr>result := - 1, errno_loc := en\<rparr>)
         | Datagram src bytes \<Rightarrow>
             (let stored = take (nat DATA_PACKET_SIZE) bytes;
                  recvfrom_res = int (length stored);
                  s1 = s\<lparr>dst := store_bytes (dst s) packet_buffer stored\<rparr>
              in if recvfrom_res = DATA_PACKET_SIZE then
                   if src \<noteq> camera_ip c then Continue s1
                   else
                     (let s2 = s1\<lparr>incorrect_packets_length := 0\<rparr>;
                          frame_number = uint (dst s2 packet_buffer);
                          packet_offset =
                            push_bit 16 (uint (dst s2 (packet_buffer + 1))) OR
                            push_bit 8 (uint (dst s2 (packet_buffer + 2))) OR
                            uint (dst s2 (packet_buffer + 3))
                      in if frame_number = 0 \<or>
                            packet_offset > (DATA_PACKET_SIZE - 4) * (frame_packets c - 1) \<or>
                            packet_offset mod (DATA_PACKET_SIZE - 4) \<noteq> 0
                         then Continue s2
                         else if frame_number > frames c then Break (s2\<lparr>result := 0\<rparr>)
                         else Continue (s2\<lparr>packets_received_loc := packets_received_loc s2 + 1\<rparr>))
                 else if recvfrom_res = CONFIG_PACKET_SIZE then
                   if src \<noteq> camera_ip c then Continue s1
                   else Continue
                     (s1\<lparr>dst := (dst s1)(packet_buffer_offset := 1),
                         incorrect_packets_length := 0,
                         packets_received_loc := packets_received_loc s1 + 1\<rparr>)
                 else
                   (let s2 = s1\<lparr>incorrect_packets_length := incorrect_packets_length s1 + 1\<rparr>
                    in if incorrect_packets_length s2 > max_incorrect_length_packets c
                       then Break (s2\<lparr>result := 2\<rparr>)
                       else Continue s2)))"

text \<open>
  The loop over what the system delivers. \<open>Exited s rest\<close>: the loop was left in state
  \<open>s\<close>, with \<open>rest\<close> not yet consumed. \<open>Waiting s\<close>: every event is consumed and the
  loop is still running, in state \<open>s\<close>; the call has not returned.
\<close>

datatype loop_result = Exited loop_state "event list" | Waiting loop_state

fun receiving :: "config \<Rightarrow> event list \<Rightarrow> loop_state \<Rightarrow> loop_result" where
  "receiving c [] s =
     (if packets_received_loc s < dst_size c then Waiting s else Exited s [])"
| "receiving c (e # es) s =
     (if packets_received_loc s < dst_size c then
        (case loop_body c e s of
           Continue s' \<Rightarrow> receiving c es s'
         | Break s' \<Rightarrow> Exited s' es)
      else Exited s (e # es))"

subsection \<open>The whole call\<close>

text \<open>
  What the caller sees after the call: the returned value, the error code left in
  \<^verbatim>\<open>errno\<close> when the call returns \<open>-1\<close> (the source assigns \<^verbatim>\<open>errno\<close> on no
  other path), the cell behind \<^verbatim>\<open>packets_received\<close>, the socket, the memory behind
  \<^verbatim>\<open>dst\<close> and the command datagrams handed to \<^verbatim>\<open>sendto\<close>, in order.
\<close>

record outcome =
  status :: int
  errno_reported :: "int option"
  packets_received_out :: int
  sock_out :: socket
  dst_out :: memory
  sent :: "8 word list list"

text \<open>
  The restoration at the end of the call: nothing when the socket was non-blocking
  already; otherwise \<^verbatim>\<open>F_SETFL\<close> with the flags read at the start and, if that
  succeeded, the timeouts.
\<close>

definition restore_socket :: "env \<Rightarrow> config \<Rightarrow> int \<Rightarrow> int \<Rightarrow> socket \<Rightarrow> int option \<times> socket" where
  "restore_socket en c fcntl_res_before fcntl_res_required sk =
     (if fcntl_res_required \<noteq> fcntl_res_before then
        (case fcntl_setfl (restore_setfl_errno en) fcntl_res_before sk of
           (Some e, sk') \<Rightarrow> (Some e, sk')
         | (None, sk') \<Rightarrow> set_socket_timeout en (network_operation_timeout_ms c) sk')
      else (None, sk))"

text \<open>
  The part of the call after the loop, from its final state \<open>s\<close>. The results of the
  stop command, of the sleep and of the drain are not looked at by the source.
\<close>

definition shutdown :: "env \<Rightarrow> config \<Rightarrow> int \<Rightarrow> int \<Rightarrow> socket \<Rightarrow> loop_state \<Rightarrow> outcome" where
  "shutdown en c fcntl_res_before fcntl_res_required sk s =
     (let (failure, sk') = restore_socket en c fcntl_res_before fcntl_res_required sk;
          s1 = (case failure of
                  Some e \<Rightarrow> s\<lparr>errno_loc := (if errno_loc s = 0 then e else errno_loc s), result := - 1\<rparr>
                | None \<Rightarrow> s);
          s2 = (if result s1 = - 1 then s1\<lparr>packets_received_loc := 0\<rparr> else s1)
      in \<lparr>status = result s2,
          errno_reported = (if result s1 = - 1 then Some (errno_loc s1) else None),
          packets_received_out = packets_received_loc s2,
          sock_out = sk',
          dst_out = dst s2,
          sent = [send_command_stop, send_command_start (video_format c),
                  send_command_exposure (exposure c), send_command_stop]\<rparr>)"

text \<open>
  \<^verbatim>\<open>pyvac248ipnative_capture_packets\<close>. \<open>sk\<close> is the socket, \<open>m\<close> the memory
  behind \<^verbatim>\<open>dst\<close> and \<open>pr\<close> the content of \<^verbatim>\<open>*packets_received\<close> at the
  call. \<open>None\<close>: the events end with the loop still running.
\<close>

definition init_state :: "config \<Rightarrow> memory \<Rightarrow> loop_state" where
  "init_state c m =
     \<lparr>packets_received_loc = 0, incorrect_packets_length = 0, result = 0, errno_loc = 0,
      dst = zero_markers 0 (dst_size c) m\<rparr>"

definition capture_packets :: "config \<Rightarrow> env \<Rightarrow> socket \<Rightarrow> memory \<Rightarrow> int \<Rightarrow> outcome option" where
  "capture_packets c en sk m pr =
     (let fcntl_res_before = fcntl_getfl (getfl_errno en) sk in
      if fcntl_res_before < 0 then
        Some \<lparr>status = - 1, errno_reported = getfl_errno en, packets_received_out = pr,
              sock_out = sk, dst_out = m, sent = []\<rparr>
      else
        (let fcntl_res_required = fcntl_res_before OR o_nonblock en;
             (failure, sk1) =
               (if fcntl_res_required \<noteq> fcntl_res_before
                then fcntl_setfl (setfl_errno en) fcntl_res_required sk
                else (None, sk))
         in case failure of
              Some e \<Rightarrow>
                Some \<lparr>status = - 1, errno_reported = Some e, packets_received_out = pr,
                      sock_out = sk1, dst_out = m, sent = []\<rparr>
            | None \<Rightarrow>
                (case receiving c (events en) (init_state c m) of
                   Waiting s \<Rightarrow> None
                 | Exited s rest \<Rightarrow>
                     Some (shutdown en c fcntl_res_before fcntl_res_required sk1 s))))"

subsection \<open>Vocabulary of the properties\<close>

text \<open>
  What \<^verbatim>\<open>recvfrom\<close> reports for a datagram, and the header the loop reads from a
  data packet: \<^verbatim>\<open>packet_buffer[0]\<close> and the 24-bit big-endian offset in
  \<^verbatim>\<open>packet_buffer[1..3]\<close>.
\<close>

definition received_size :: "8 word list \<Rightarrow> int" where
  "received_size bytes = int (length (take (nat DATA_PACKET_SIZE) bytes))"

definition frame_number_of :: "8 word list \<Rightarrow> int" where
  "frame_number_of bytes = uint (bytes ! 0)"

definition packet_offset_of :: "8 word list \<Rightarrow> int" where
  "packet_offset_of bytes =
     push_bit 16 (uint (bytes ! 1)) OR push_bit 8 (uint (bytes ! 2)) OR uint (bytes ! 3)"

text \<open>
  The offset of \<^verbatim>\<open>packet_buffer\<close>, the payload region of the next free slot, and
  the state once \<^verbatim>\<open>recvfrom\<close> has stored a datagram there.
\<close>

definition slot_payload :: "loop_state \<Rightarrow> int" where
  "slot_payload s = packets_received_loc s * (DATA_PACKET_SIZE + 1) + 1"

definition received :: "loop_state \<Rightarrow> 8 word list \<Rightarrow> loop_state" where
  "received s bytes = s\<lparr>dst := store_bytes (dst s) (slot_payload s) (take 1472 bytes)\<rparr>"

fun state_of :: "flow \<Rightarrow> loop_state" where
  "state_of (Continue s) = s"
| "state_of (Break s) = s"

fun exit_status :: "loop_result \<Rightarrow> int option" where
  "exit_status (Exited s rest) = Some (result s)"
| "exit_status (Waiting s) = None"

fun last_state :: "loop_result \<Rightarrow> loop_state" where
  "last_state (Exited s rest) = s"
| "last_state (Waiting s) = s"

text \<open>
  A datagram of a size that is neither that of a data packet nor that of a config packet;
  a datagram of one of the two sizes from the camera; a data packet from the camera that
  the loop skips for its frame number 0 or its offset.
\<close>

fun malformed :: "event \<Rightarrow> bool" where
  "malformed (Datagram src bytes) =
     (received_size bytes \<noteq> DATA_PACKET_SIZE \<and> received_size bytes \<noteq> CONFIG_PACKET_SIZE)"
| "malformed _ = False"

fun camera_packet :: "config \<Rightarrow> event \<Rightarrow> bool" where
  "camera_packet c (Datagram src bytes) =
     (src = camera_ip c \<and>
      (received_size bytes = DATA_PACKET_SIZE \<or> received_size bytes = CONFIG_PACKET_SIZE))"
| "camera_packet c _ = False"

fun discarded :: "config \<Rightarrow> event \<Rightarrow> bool" where
  "discarded c (Datagram src bytes) =
     (src = camera_ip c \<and> received_size bytes = DATA_PACKET_SIZE \<and>
      (frame_number_of bytes = 0 \<or>
       packet_offset_of bytes > 1468 * (frame_packets c - 1) \<or>
       packet_offset_of bytes mod 1468 \<noteq> 0))"
| "discarded c _ = False"

text \<open>
  A round of traffic: a run of malformed datagrams no longer than the threshold, then a
  data packet from the camera that the loop skips.
\<close>

definition round_ok :: "config \<Rightarrow> event list \<times> event \<Rightarrow> bool" where
  "round_ok c r =
     (list_all malformed (fst r) \<and> int (length (fst r)) \<le> max_incorrect_length_packets c \<and>
      discarded c (snd r))"

definition round_events :: "(event list \<times> event) list \<Rightarrow> event list" where
  "round_events rounds = concat (map (\<lambda>r. fst r @ [snd r]) rounds)"

text \<open>What the caller reads off a call that returned.\<close>

definition returned_status :: "outcome option \<Rightarrow> int option" where
  "returned_status r = map_option status r"

definition count_after :: "outcome option \<Rightarrow> int option" where
  "count_after r = map_option packets_received_out r"

definition socket_after :: "outcome option \<Rightarrow> socket option" where
  "socket_after r = map_option sock_out r"

definition errno_after :: "outcome option \<Rightarrow> int option" where
  "errno_after r = Option.bind r errno_reported"

text \<open>
  The error code of the restoration when the socket has to be put back: that of the first
  of \<^verbatim>\<open>F_SETFL\<close>, \<^verbatim>\<open>SO_RCVTIMEO\<close> and \<^verbatim>\<open>SO_SNDTIMEO\<close> that fails.
\<close>

definition restore_errno :: "env \<Rightarrow> int option" where
  "restore_errno en =
     (case restore_setfl_errno en of
        Some e \<Rightarrow> Some e
      | None \<Rightarrow> (case rcvtimeo_errno en of Some e \<Rightarrow> Some e | None \<Rightarrow> sndtimeo_errno en))"

subsection \<open>Concrete calls\<close>

text \<open>
  A camera at 192.168.0.1 (the address in network byte order), two frames of two packets
  wanted, room for three packets, one malformed datagram tolerated, a read timeout of
  half a second.
\<close>

definition example_config :: config where
  "example_config =
     \<lparr>dst_size = 3, frames = 2, frame_packets = 2, camera_ip = 0x0100A8C0, video_format = 0,
      max_incorrect_length_packets = 1, network_operation_timeout_ms = 500, exposure = 1\<rparr>"

definition zero_memory :: memory where
  "zero_memory = (\<lambda>a. 0)"

definition ones_memory :: memory where
  "ones_memory = (\<lambda>a. 1)"

text \<open>A datagram of 1472 bytes with the given first bytes, the others 0.\<close>

definition data_packet :: "8 word list \<Rightarrow> 8 word list" where
  "data_packet header = header @ replicate (1472 - length header) 0"

text \<open>
  Sockets opened for reading and writing with no timeout set, one blocking and one
  non-blocking, on a platform where \<^verbatim>\<open>O_NONBLOCK\<close> is 2048; an environment where
  every system call succeeds.
\<close>

definition blocking_socket :: socket where
  "blocking_socket = \<lparr>fl = 2, rcvtimeo = (0, 0), sndtimeo = (0, 0)\<rparr>"

definition nonblocking_socket :: socket where
  "nonblocking_socket = \<lparr>fl = 2050, rcvtimeo = (0, 0), sndtimeo = (0, 0)\<rparr>"

definition ok_env :: "event list \<Rightarrow> env" where
  "ok_env es =
     \<lparr>o_nonblock = 2048, getfl_errno = None, setfl_errno = None, events = es,
      restore_setfl_errno = None, rcvtimeo_errno = None, sndtimeo_errno = None\<rparr>"

text \<open>
  Data packets from the camera: frame 0 with a payload byte \<open>0xAA\<close>; frame 1 at the
  offsets 0 and 1468; frame 3 at offset 0; frame 3 at the offset 1, which is no multiple
  of 1468. The first four, in this order, are the feed of the example of the
  specification.
\<close>

definition sentinel_packet :: "8 word list" where
  "sentinel_packet = data_packet [0, 0, 0, 0, 0xAA]"

definition first_packet :: "8 word list" where
  "first_packet = data_packet [1, 0, 0, 0]"

definition second_packet :: "8 word list" where
  "second_packet = data_packet [1, 0, 5, 0xBC]"

definition late_packet :: "8 word list" where
  "late_packet = data_packet [3, 0, 0, 0]"

definition late_packet_bad_offset :: "8 word list" where
  "late_packet_bad_offset = data_packet [3, 0, 0, 1]"

definition from_camera :: "8 word list \<Rightarrow> event" where
  "from_camera bytes = Datagram (camera_ip example_config) bytes"

definition example_feed :: "event list" where
  "example_feed =
     [from_camera sentinel_packet, from_camera first_packet, from_camera second_packet,
      from_camera late_packet]"

text \<open>
  Two datagrams of 3 and of 0 bytes, and two rounds of one such datagram followed by a
  skipped data packet.
\<close>

definition short_datagrams :: "event list" where
  "short_datagrams = [Datagram 7 [1, 2, 3], Datagram (camera_ip example_config) []]"

text \<open>
  Two datagrams of 2000 bytes from another sender than the camera; \<^verbatim>\<open>recvfrom\<close>
  has room for 1472 bytes.
\<close>

definition oversize_packet :: "8 word list" where
  "oversize_packet = replicate 2000 0"

definition oversize_datagrams :: "event list" where
  "oversize_datagrams = [Datagram 7 oversize_packet, Datagram 7 oversize_packet]"

definition example_rounds :: "(event list \<times> event) list" where
  "example_rounds =
     [([Datagram 7 [1, 2, 3]], from_camera sentinel_packet),
      ([Datagram 7 []], from_camera late_packet_bad_offset)]"

text \<open>
  Environments where one system call fails: reading the flags (error code 9), the
  \<^verbatim>\<open>F_SETFL\<close> of the restoration (error code 9) and the send timeout (error code 22).
\<close>

definition getfl_fails :: env where
  "getfl_fails = (ok_env [])\<lparr>getfl_errno := Some 9\<rparr>"

definition restore_fails :: "event list \<Rightarrow> env" where
  "restore_fails es = (ok_env es)\<lparr>restore_setfl_errno := Some 9\<rparr>"

definition sndtimeo_fails :: "event list \<Rightarrow> env" where
  "sndtimeo_fails es = (ok_env es)\<lparr>sndtimeo_errno := Some 22\<rparr>"

section \<open>Properties\<close>

subsection \<open>The buffer\<close>

lemma store_bytes_nth: "i < length bs \<Longrightarrow> store_bytes m off bs (off + int i) = bs ! i"
  by (simp add: store_bytes_def)

lemma store_bytes_outside:
  "a < off \<or> off + int (length bs) \<le> a \<Longrightarrow> store_bytes m off bs a = m a"
  by (auto simp: store_bytes_def)

lemma header_read:
  assumes "1472 \<le> length bytes"
  shows "store_bytes m off (take 1472 bytes) off = bytes ! 0"
    and "store_bytes m off (take 1472 bytes) (off + 1) = bytes ! 1"
    and "store_bytes m off (take 1472 bytes) (off + 2) = bytes ! 2"
    and "store_bytes m off (take 1472 bytes) (off + 3) = bytes ! 3"
  using assms by (simp_all add: store_bytes_def)

lemma slot_step:
  "(p + 1473 \<le> a \<and> (a - (p + 1473)) mod 1473 = 0) \<or> a = p \<longleftrightarrow>
   p \<le> a \<and> (a - p) mod (1473::int) = 0"
proof -
  have e: "(a - (p + 1473)) mod 1473 = (a - p) mod 1473"
    by (metis diff_diff_eq minus_mod_self2)
  have "p + 1473 \<le> a" if "p \<le> a" "(a - p) mod 1473 = 0" "a \<noteq> p"
  proof -
    from that have "0 < a - p" "1473 dvd (a - p)" by auto
    then have "1473 \<le> a - p" using zdvd_imp_le [of 1473 "a - p"] by simp
    then show ?thesis by simp
  qed
  then show ?thesis using e by auto
qed

text \<open>
  What the marker loop does: it writes 0 at the offsets \<open>p\<close>, \<open>p + 1473\<close>, \<dots>
  below \<open>dst_size\<close>, and nowhere else.
\<close>

lemma zero_markers_eq:
  "zero_markers p n m =
     (\<lambda>a. if p \<le> a \<and> a < n \<and> (a - p) mod 1473 = 0 then 0 else m a)"
proof (induction p n m rule: zero_markers.induct)
  case (1 p n m)
  show ?case
  proof (cases "p < n")
    case True
    have "zero_markers p n m = zero_markers (p + (DATA_PACKET_SIZE + 1)) n (m(p := 0))"
      using True by (subst zero_markers.simps) simp
    also have "\<dots> =
        (\<lambda>a. if p + (DATA_PACKET_SIZE + 1) \<le> a \<and> a < n \<and>
                 (a - (p + (DATA_PACKET_SIZE + 1))) mod 1473 = 0
              then 0 else (m(p := 0)) a)"
      by (rule 1 [OF True])
    also have "\<dots> = (\<lambda>a. if p \<le> a \<and> a < n \<and> (a - p) mod 1473 = 0 then 0 else m a)"
    proof (rule ext)
      fix a :: int
      show "(if p + (DATA_PACKET_SIZE + 1) \<le> a \<and> a < n \<and>
                (a - (p + (DATA_PACKET_SIZE + 1))) mod 1473 = 0
             then 0 else (m(p := 0)) a) =
            (if p \<le> a \<and> a < n \<and> (a - p) mod 1473 = 0 then 0 else m a)"
        using True slot_step [of p a] by (auto simp: DATA_PACKET_SIZE_def)
    qed
    finally show ?thesis .
  next
    case False
    then show ?thesis by (subst zero_markers.simps) (auto simp: fun_eq_iff)
  qed
qed

subsection \<open>One iteration, by the kind of datagram\<close>

lemma received_size_data: "received_size bytes = DATA_PACKET_SIZE \<longleftrightarrow> 1472 \<le> length bytes"
  by (auto simp: received_size_def DATA_PACKET_SIZE_def)

lemma received_fields [simp]:
  "packets_received_loc (received s bytes) = packets_received_loc s"
  "incorrect_packets_length (received s bytes) = incorrect_packets_length s"
  "result (received s bytes) = result s"
  "errno_loc (received s bytes) = errno_loc s"
  by (simp_all add: received_def)

lemma loop_body_data:
  assumes "1472 \<le> length bytes"
  shows "loop_body c (Datagram (camera_ip c) bytes) s =
     (let s2 = (received s bytes)\<lparr>incorrect_packets_length := 0\<rparr>
      in if frame_number_of bytes = 0 \<or>
            packet_offset_of bytes > 1468 * (frame_packets c - 1) \<or>
            packet_offset_of bytes mod 1468 \<noteq> 0
         then Continue s2
         else if frame_number_of bytes > frames c then Break (s2\<lparr>result := 0\<rparr>)
         else Continue (s2\<lparr>packets_received_loc := packets_received_loc s + 1\<rparr>))"
proof -
  have nat: "nat DATA_PACKET_SIZE = 1472" by (simp add: DATA_PACKET_SIZE_def)
  have sz: "int (length (take 1472 bytes)) = DATA_PACKET_SIZE"
    using assms by (simp add: DATA_PACKET_SIZE_def)
  have off: "slot_payload s = packets_received_loc s * (DATA_PACKET_SIZE + 1) + 1"
    by (simp add: slot_payload_def)
  show ?thesis
    unfolding loop_body_def Let_def event.case nat sz off [symmetric]
    by (simp add: DATA_PACKET_SIZE_def header_read [OF assms] frame_number_of_def
        packet_offset_of_def received_def)
qed

lemma loop_body_foreign:
  assumes "received_size bytes = DATA_PACKET_SIZE \<or> received_size bytes = CONFIG_PACKET_SIZE"
    and "src \<noteq> camera_ip c"
  shows "loop_body c (Datagram src bytes) s = Continue (received s bytes)"
  using assms unfolding loop_body_def Let_def event.case
  by (auto simp: received_size_def received_def slot_payload_def DATA_PACKET_SIZE_def
      CONFIG_PACKET_SIZE_def)

lemma loop_body_config:
  assumes "received_size bytes = CONFIG_PACKET_SIZE"
  shows "loop_body c (Datagram (camera_ip c) bytes) s =
     Continue ((received s bytes)
       \<lparr>dst := (dst (received s bytes))(slot_payload s - 1 := 1),
        incorrect_packets_length := 0,
        packets_received_loc := packets_received_loc s + 1\<rparr>)"
  using assms unfolding loop_body_def Let_def event.case
  by (auto simp: received_size_def received_def slot_payload_def DATA_PACKET_SIZE_def
      CONFIG_PACKET_SIZE_def)

lemma loop_body_malformed:
  assumes "malformed (Datagram src bytes)"
  shows "loop_body c (Datagram src bytes) s =
     (let s2 = (received s bytes)\<lparr>incorrect_packets_length := incorrect_packets_length s + 1\<rparr>
      in if incorrect_packets_length s + 1 > max_incorrect_length_packets c
         then Break (s2\<lparr>result := 2\<rparr>) else Continue s2)"
  using assms unfolding loop_body_def Let_def event.case
  by (auto simp: received_size_def received_def slot_payload_def DATA_PACKET_SIZE_def
      CONFIG_PACKET_SIZE_def)

lemma init_state_fields [simp]:
  "packets_received_loc (init_state c m) = 0"
  "incorrect_packets_length (init_state c m) = 0"
  "result (init_state c m) = 0"
  "errno_loc (init_state c m) = 0"
  by (simp_all add: init_state_def)

lemma init_state_zero: "dst (init_state c zero_memory) a = 0"
  by (simp add: init_state_def zero_markers_eq zero_memory_def)

lemma received_read:
  assumes "1472 \<le> length bytes" and "i < 1472"
  shows "dst (received s bytes) (slot_payload s + int i) = bytes ! i"
  using assms by (simp add: received_def store_bytes_def)

lemma received_outside:
  assumes "a < slot_payload s \<or> slot_payload s + 1472 \<le> a"
  shows "dst (received s bytes) a = dst s a"
  using assms by (auto simp: received_def store_bytes_def)

text \<open>No marker byte lies in the payload region of a slot.\<close>

lemma received_marker: "dst (received s bytes) (k * 1473) = dst s (k * 1473)"
proof -
  have "k * 1473 < slot_payload s \<or> slot_payload s + 1472 \<le> k * 1473"
    by (simp add: slot_payload_def DATA_PACKET_SIZE_def) arith
  then show ?thesis by (rule received_outside)
qed

lemma loop_body_discarded:
  assumes "discarded c e"
  shows "\<exists>s'. loop_body c e s = Continue s' \<and>
     packets_received_loc s' = packets_received_loc s \<and> incorrect_packets_length s' = 0 \<and>
     result s' = result s \<and> errno_loc s' = errno_loc s"
proof -
  from assms obtain src bytes where e: "e = Datagram src bytes" by (cases e) auto
  with assms have "src = camera_ip c" "1472 \<le> length bytes"
    and "frame_number_of bytes = 0 \<or> packet_offset_of bytes > 1468 * (frame_packets c - 1) \<or>
       packet_offset_of bytes mod 1468 \<noteq> 0"
    by (auto simp: received_size_data)
  then have "loop_body c e s = Continue ((received s bytes)\<lparr>incorrect_packets_length := 0\<rparr>)"
    using loop_body_data [of bytes c s] by (simp add: e Let_def)
  then show ?thesis by simp
qed

lemma camera_packet_counter:
  assumes "camera_packet c e"
  shows "incorrect_packets_length (state_of (loop_body c e s)) = 0"
proof -
  from assms obtain bytes where e: "e = Datagram (camera_ip c) bytes"
    and sz: "received_size bytes = DATA_PACKET_SIZE \<or> received_size bytes = CONFIG_PACKET_SIZE"
    by (cases e) auto
  from sz show ?thesis
  proof
    assume "received_size bytes = DATA_PACKET_SIZE"
    then have "1472 \<le> length bytes" by (simp add: received_size_data)
    then show ?thesis by (simp add: e loop_body_data Let_def)
  next
    assume "received_size bytes = CONFIG_PACKET_SIZE"
    then show ?thesis by (simp add: e loop_body_config)
  qed
qed

subsection \<open>The loop over a sequence of events\<close>

lemma receiving_append:
  "receiving c pre s = Waiting s1 \<Longrightarrow> receiving c (pre @ es) s = receiving c es s1"
proof (induction pre arbitrary: s)
  case Nil
  then show ?case by (cases es) (auto split: if_splits)
next
  case (Cons e pre)
  then show ?case by (auto split: if_splits flow.splits)
qed

lemma receiving_Waiting_running:
  "receiving c es s = Waiting s1 \<Longrightarrow> packets_received_loc s1 < dst_size c"
  by (induction es arbitrary: s) (auto split: if_splits flow.splits)

lemma receiving_error_exit:
  assumes "receiving c pre s = Waiting s1" and "ev = Poll_Error e \<or> ev = Recv_Error e"
  shows "receiving c (pre @ ev # rest) s = Exited (s1\<lparr>result := - 1, errno_loc := e\<rparr>) rest"
  using assms receiving_Waiting_running [OF assms(1)]
  by (auto simp: receiving_append loop_body_def)

text \<open>
  A run of malformed datagrams that stays within the threshold only moves the counter.
\<close>

lemma malformed_run:
  assumes "list_all malformed es" and "packets_received_loc s < dst_size c"
    and "incorrect_packets_length s + int (length es) \<le> max_incorrect_length_packets c"
  shows "\<exists>s'. receiving c (es @ rest) s = receiving c rest s' \<and>
     packets_received_loc s' = packets_received_loc s \<and>
     incorrect_packets_length s' = incorrect_packets_length s + int (length es) \<and>
     result s' = result s \<and> errno_loc s' = errno_loc s"
  using assms
proof (induction es arbitrary: s)
  case Nil
  then show ?case by (intro exI [of _ s]) simp
next
  case (Cons e es)
  from Cons.prems(1) obtain src bytes
    where e: "e = Datagram src bytes" and m: "malformed (Datagram src bytes)"
    by (cases e) auto
  let ?s1 = "(received s bytes)\<lparr>incorrect_packets_length := incorrect_packets_length s + 1\<rparr>"
  have step: "loop_body c e s = Continue ?s1"
    using Cons.prems(3) by (simp add: e loop_body_malformed [OF m] Let_def)
  have "\<exists>s'. receiving c (es @ rest) ?s1 = receiving c rest s' \<and>
     packets_received_loc s' = packets_received_loc ?s1 \<and>
     incorrect_packets_length s' = incorrect_packets_length ?s1 + int (length es) \<and>
     result s' = result ?s1 \<and> errno_loc s' = errno_loc ?s1"
    using Cons.prems by (intro Cons.IH) auto
  then show ?case using Cons.prems(2) step by auto
qed

lemma round_run:
  assumes "round_ok c r" and "packets_received_loc s < dst_size c"
    and "incorrect_packets_length s = 0"
  shows "\<exists>s'. receiving c ((fst r @ [snd r]) @ rest) s = receiving c rest s' \<and>
     packets_received_loc s' = packets_received_loc s \<and> incorrect_packets_length s' = 0 \<and>
     result s' = result s \<and> errno_loc s' = errno_loc s"
proof -
  from assms(1) have ms: "list_all malformed (fst r)"
    and len: "int (length (fst r)) \<le> max_incorrect_length_packets c"
    and d: "discarded c (snd r)"
    by (auto simp: round_ok_def)
  obtain s1 where s1: "receiving c (fst r @ (snd r # rest)) s = receiving c (snd r # rest) s1"
    "packets_received_loc s1 = packets_received_loc s" "result s1 = result s"
    "errno_loc s1 = errno_loc s"
    using malformed_run [OF ms assms(2), of "snd r # rest"] len assms(3) by auto
  obtain s2 where s2: "loop_body c (snd r) s1 = Continue s2"
    "packets_received_loc s2 = packets_received_loc s1" "incorrect_packets_length s2 = 0"
    "result s2 = result s1" "errno_loc s2 = errno_loc s1"
    using loop_body_discarded [OF d, of s1] by blast
  have "receiving c ((fst r @ [snd r]) @ rest) s = receiving c rest s2"
    using s1 s2 assms(2) by simp
  then show ?thesis using s1 s2 by (intro exI [of _ s2]) simp
qed

lemma rounds_run:
  assumes "list_all (round_ok c) rounds" and "packets_received_loc s < dst_size c"
    and "incorrect_packets_length s = 0"
  shows "\<exists>s'. receiving c (round_events rounds @ rest) s = receiving c rest s' \<and>
     packets_received_loc s' = packets_received_loc s \<and> incorrect_packets_length s' = 0 \<and>
     result s' = result s \<and> errno_loc s' = errno_loc s"
  using assms
proof (induction rounds arbitrary: s)
  case Nil
  then show ?case by (intro exI [of _ s]) (simp add: round_events_def)
next
  case (Cons r rounds)
  then have r: "round_ok c r" and rs: "list_all (round_ok c) rounds" by auto
  obtain s1 where s1: "receiving c ((fst r @ [snd r]) @ (round_events rounds @ rest)) s =
       receiving c (round_events rounds @ rest) s1"
    "packets_received_loc s1 = packets_received_loc s" "incorrect_packets_length s1 = 0"
    "result s1 = result s" "errno_loc s1 = errno_loc s"
    using round_run [OF r Cons.prems(2,3)] by blast
  have "\<exists>s'. receiving c (round_events rounds @ rest) s1 = receiving c rest s' \<and>
     packets_received_loc s' = packets_received_loc s1 \<and> incorrect_packets_length s' = 0 \<and>
     result s' = result s1 \<and> errno_loc s' = errno_loc s1"
    using Cons.prems(2) s1 by (intro Cons.IH [OF rs]) auto
  then show ?case using s1 by (auto simp: round_events_def)
qed

subsection \<open>The end of the call\<close>

lemma restore_socket_same: "restore_socket en c b b sk = (None, sk)"
  by (simp add: restore_socket_def)

lemma restore_socket_ok:
  assumes "r \<noteq> b" and "restore_setfl_errno en = None" and "rcvtimeo_errno en = None"
    and "sndtimeo_errno en = None"
  shows "restore_socket en c b r sk =
     (None, sk\<lparr>fl := b, rcvtimeo := timeval_of_ms (network_operation_timeout_ms c),
                sndtimeo := timeval_of_ms (network_operation_timeout_ms c)\<rparr>)"
  using assms by (simp add: restore_socket_def fcntl_setfl_def set_socket_timeout_def Let_def)

lemma restore_socket_errno:
  "fst (restore_socket en c b r sk) = (if r \<noteq> b then restore_errno en else None)"
  by (auto simp: restore_socket_def restore_errno_def fcntl_setfl_def set_socket_timeout_def
      Let_def split: option.splits)

lemma restore_errno_None:
  "restore_errno en = None \<longleftrightarrow>
   restore_setfl_errno en = None \<and> rcvtimeo_errno en = None \<and> sndtimeo_errno en = None"
  by (auto simp: restore_errno_def split: option.splits)

lemma shutdown_status:
  "status (shutdown en c b r sk s) =
     (case fst (restore_socket en c b r sk) of Some e \<Rightarrow> - 1 | None \<Rightarrow> result s)"
  by (cases "restore_socket en c b r sk") (auto simp: shutdown_def Let_def split: option.splits)

lemma shutdown_sock:
  "sock_out (shutdown en c b r sk s) = snd (restore_socket en c b r sk)"
  by (cases "restore_socket en c b r sk") (auto simp: shutdown_def Let_def split: option.splits)

lemma shutdown_count:
  "packets_received_out (shutdown en c b r sk s) =
     (if status (shutdown en c b r sk s) = - 1 then 0 else packets_received_loc s)"
  by (cases "restore_socket en c b r sk") (auto simp: shutdown_def Let_def split: option.splits)

lemma shutdown_errno:
  "errno_reported (shutdown en c b r sk s) =
     (case fst (restore_socket en c b r sk) of
        Some e \<Rightarrow> Some (if errno_loc s = 0 then e else errno_loc s)
      | None \<Rightarrow> if result s = - 1 then Some (errno_loc s) else None)"
  by (cases "restore_socket en c b r sk") (auto simp: shutdown_def Let_def split: option.splits)

lemma shutdown_sent:
  "sent (shutdown en c b r sk s) =
     [send_command_stop, send_command_start (video_format c),
      send_command_exposure (exposure c), send_command_stop]"
  by (cases "restore_socket en c b r sk") (simp add: shutdown_def Let_def)

text \<open>A call that gets past the two \<^verbatim>\<open>fcntl\<close> calls and whose loop is left.\<close>

lemma capture_after_init:
  assumes "getfl_errno en = None" and "0 \<le> fl sk"
    and "fl sk OR o_nonblock en \<noteq> fl sk \<longrightarrow> setfl_errno en = None"
    and "receiving c (events en) (init_state c m) = Exited s rest"
  shows "capture_packets c en sk m pr =
     Some (shutdown en c (fl sk) (fl sk OR o_nonblock en)
            (if fl sk OR o_nonblock en \<noteq> fl sk then sk\<lparr>fl := fl sk OR o_nonblock en\<rparr> else sk) s)"
  using assms by (auto simp: capture_packets_def fcntl_getfl_def fcntl_setfl_def Let_def)

text \<open>The three ways a call returns.\<close>

lemma capture_Some:
  assumes "capture_packets c en sk m pr = Some out"
  shows "((getfl_errno en \<noteq> None \<or> fl sk < 0) \<and> status out = - 1 \<and> sock_out out = sk \<and>
       packets_received_out out = pr) \<or>
     (getfl_errno en = None \<and> 0 \<le> fl sk \<and> fl sk OR o_nonblock en \<noteq> fl sk \<and>
       setfl_errno en \<noteq> None \<and> status out = - 1 \<and> sock_out out = sk \<and>
       packets_received_out out = pr) \<or>
     (getfl_errno en = None \<and> 0 \<le> fl sk \<and>
       (fl sk OR o_nonblock en \<noteq> fl sk \<longrightarrow> setfl_errno en = None) \<and>
       (\<exists>s rest. receiving c (events en) (init_state c m) = Exited s rest))"
  using assms
  by (auto simp: capture_packets_def fcntl_getfl_def fcntl_setfl_def Let_def
      split: option.splits if_splits loop_result.splits)

text \<open>
  Past the two \<^verbatim>\<open>fcntl\<close> calls, the count the caller reads is 0 when the call
  returns \<open>-1\<close> and the number of accepted packets otherwise.
\<close>

lemma count_after_loop:
  assumes "getfl_errno en = None" and "0 \<le> fl sk"
    and "fl sk OR o_nonblock en \<noteq> fl sk \<longrightarrow> setfl_errno en = None"
    and "receiving c (events en) (init_state c m) = Exited s rest"
  shows "count_after (capture_packets c en sk m pr) =
     Some (if returned_status (capture_packets c en sk m pr) = Some (- 1) then 0
           else packets_received_loc s)"
  by (simp add: capture_after_init [OF assms] count_after_def returned_status_def shutdown_count)

subsection \<open>Command datagrams\<close>

lemma low_byte: "(ucast (w AND 0xff :: 32 word) :: 8 word) = ucast w"
proof -
  have ff: "(0xff :: 32 word) = mask 8" by (simp add: mask_eq_exp_minus_1)
  show ?thesis unfolding ff by (rule bit_word_eqI) (auto simp: bit_simps)
qed

lemma ucast_sum: "(ucast (a + b :: 32 word) :: 8 word) = ucast a + ucast b"
proof -
  have "uint (a + b) = take_bit 32 (uint a + uint b)"
    by (simp add: uint_word_ariths take_bit_eq_mod)
  then have "(ucast (a + b) :: 8 word) = word_of_int (take_bit 32 (uint a + uint b))"
    unfolding ucast_eq by simp
  also have "\<dots> = (word_of_int (uint a + uint b) :: 8 word)"
    by (rule word_of_int_eq_iff [THEN iffD2]) simp
  also have "\<dots> = ucast a + ucast b"
    unfolding ucast_eq by simp
  finally show ?thesis .
qed

lemma byte_round_trip: "(ucast (ucast (v :: 8 word) :: 32 word) :: 8 word) = v"
  by (rule ucast_up_ucast_id) (simp add: is_up)

lemma send_command_buf_eq:
  "send_command_buf command data =
     [ucast command, ucast data, 0, 0, 0, 0, 0, ucast command + ucast data]"
  by (simp add: send_command_buf_def low_byte ucast_sum)

lemma start_payload:
  "(ucast (word_of_int (format OR 0x80) :: 32 word) :: 8 word) = word_of_int (format OR 0x80)"
  by (rule bit_word_eqI) (auto simp: bit_simps)

subsection \<open>The concrete calls\<close>

lemma data_packet_length: "length header \<le> 1472 \<Longrightarrow> length (data_packet header) = 1472"
  by (simp add: data_packet_def)

lemma data_packet_header: "i < length header \<Longrightarrow> data_packet header ! i = header ! i"
  by (simp add: data_packet_def nth_append)

lemma sentinel_packet_facts:
  "received_size sentinel_packet = DATA_PACKET_SIZE" "frame_number_of sentinel_packet = 0"
  "1472 \<le> length sentinel_packet" "sentinel_packet ! 4 = 0xAA"
  by (simp_all add: sentinel_packet_def received_size_data data_packet_length
      frame_number_of_def data_packet_header)

lemma first_packet_facts:
  "1472 \<le> length first_packet" "frame_number_of first_packet = 1"
  "packet_offset_of first_packet = 0"
  by (simp_all add: first_packet_def data_packet_length frame_number_of_def
      packet_offset_of_def data_packet_header)

lemma second_packet_facts:
  "1472 \<le> length second_packet" "frame_number_of second_packet = 1"
  "packet_offset_of second_packet = 1468"
  by (simp_all add: second_packet_def data_packet_length frame_number_of_def
      packet_offset_of_def data_packet_header)

lemma late_packet_facts:
  "received_size late_packet = DATA_PACKET_SIZE" "1472 \<le> length late_packet"
  "frame_number_of late_packet = 3" "packet_offset_of late_packet = 0"
  by (simp_all add: late_packet_def received_size_data data_packet_length
      frame_number_of_def packet_offset_of_def data_packet_header)

lemma late_packet_bad_offset_facts:
  "received_size late_packet_bad_offset = DATA_PACKET_SIZE"
  "1472 \<le> length late_packet_bad_offset"
  "frame_number_of late_packet_bad_offset = 3" "packet_offset_of late_packet_bad_offset = 1"
  by (simp_all add: late_packet_bad_offset_def received_size_data data_packet_length
      frame_number_of_def packet_offset_of_def data_packet_header)

lemma example_config_fields [simp]:
  "dst_size example_config = 3" "frames example_config = 2"
  "frame_packets example_config = 2" "max_incorrect_length_packets example_config = 1"
  "network_operation_timeout_ms example_config = 500"
  by (simp_all add: example_config_def)

text \<open>
  The example of the specification: the loop is left by the packet of frame 3, with the
  result 0 and two packets accepted.
\<close>

lemma example_feed_run:
  "\<exists>s. receiving example_config example_feed (init_state example_config m) = Exited s [] \<and>
     result s = 0 \<and> packets_received_loc s = 2"
proof -
  let ?c = "example_config"
  let ?s0 = "init_state ?c m"
  let ?s1 = "(received ?s0 sentinel_packet)\<lparr>incorrect_packets_length := 0\<rparr>"
  let ?s2 = "(received ?s1 first_packet)\<lparr>incorrect_packets_length := 0, packets_received_loc := 1\<rparr>"
  let ?s3 = "(received ?s2 second_packet)\<lparr>incorrect_packets_length := 0, packets_received_loc := 2\<rparr>"
  let ?s4 = "(received ?s3 late_packet)\<lparr>incorrect_packets_length := 0, result := 0\<rparr>"
  have 1: "loop_body ?c (from_camera sentinel_packet) ?s0 = Continue ?s1"
    by (simp add: from_camera_def loop_body_data sentinel_packet_facts Let_def)
  have 2: "loop_body ?c (from_camera first_packet) ?s1 = Continue ?s2"
    by (simp add: from_camera_def loop_body_data first_packet_facts Let_def)
  have 3: "loop_body ?c (from_camera second_packet) ?s2 = Continue ?s3"
    by (simp add: from_camera_def loop_body_data second_packet_facts Let_def)
  have 4: "loop_body ?c (from_camera late_packet) ?s3 = Break ?s4"
    by (simp add: from_camera_def loop_body_data late_packet_facts Let_def)
  have "receiving ?c example_feed ?s0 = Exited ?s4 []"
    by (simp add: example_feed_def 1 2 3 4)
  then show ?thesis by (intro exI [of _ ?s4]) simp
qed

lemma timeout_run:
  "receiving example_config [Poll_Timeout] (init_state example_config m) =
     Exited ((init_state example_config m)\<lparr>result := 1\<rparr>) []"
  by (simp add: loop_body_def)

lemma ok_env_fields [simp]:
  "o_nonblock (ok_env es) = 2048" "getfl_errno (ok_env es) = None"
  "setfl_errno (ok_env es) = None" "events (ok_env es) = es"
  "restore_setfl_errno (ok_env es) = None" "rcvtimeo_errno (ok_env es) = None"
  "sndtimeo_errno (ok_env es) = None"
  by (simp_all add: ok_env_def)

lemma socket_flags [simp]:
  "fl blocking_socket = 2" "fl nonblocking_socket = 2050"
  "(2::int) OR 2048 = 2050" "(2050::int) OR 2048 = 2050"
  by (simp_all add: blocking_socket_def nonblocking_socket_def)

lemma timeval_of_500: "timeval_of_ms 500 = (0, 500000)"
  by (simp add: timeval_of_ms_def c_div_def c_mod_def)

section \<open>The claims\<close>

subsection \<open>C1\<close>

text \<open>
  C1 says that the start of a call sets the kind marker of every one of the
  \<open>dst_size\<close> slots to 0, the bytes at the offsets \<open>i * 1473\<close> for
  \<open>0 \<le> i < dst_size\<close>. The loop of the source compares the pointer with
  \<^verbatim>\<open>dst_casted + dst_size\<close>, a bound in bytes, where the slots end at
  \<open>dst_size * 1473\<close>: with room for three packets and a buffer that holds 1
  everywhere, the marker of slot 0 is reset and those of the slots 1 and 2 keep the 1.
\<close>

theorem markers_of_later_slots_not_reset:
  "dst (init_state example_config ones_memory) 0 = 0 \<and>
   dst (init_state example_config ones_memory) 1473 = 1 \<and>
   dst (init_state example_config ones_memory) 2946 = 1"
  by (simp add: init_state_def zero_markers_eq ones_memory_def)

subsection \<open>C2\<close>

text \<open>
  C2 says that after a call that ends with Success, Timeout or TooManyMalformed the
  flags and the timeouts of the socket are what they were before it. The flags are. The
  timeouts are not read at the start, and the restoration sets them to the read timeout
  of the call: on a blocking socket with no timeout, a call that times out leaves both
  timeouts at half a second.
\<close>

lemma timeout_call_on_blocking_socket:
  "capture_packets example_config (ok_env [Poll_Timeout]) blocking_socket m pr =
     Some (shutdown (ok_env [Poll_Timeout]) example_config 2 2050
             (blocking_socket\<lparr>fl := 2050\<rparr>) ((init_state example_config m)\<lparr>result := 1\<rparr>))"
proof -
  have "receiving example_config (events (ok_env [Poll_Timeout])) (init_state example_config m) =
      Exited ((init_state example_config m)\<lparr>result := 1\<rparr>) []"
    unfolding ok_env_fields by (rule timeout_run)
  from capture_after_init [OF _ _ _ this, of blocking_socket pr] show ?thesis by simp
qed

theorem timeouts_not_preserved:
  "returned_status
     (capture_packets example_config (ok_env [Poll_Timeout]) blocking_socket zero_memory 0) =
     Some 1 \<and>
   socket_after
     (capture_packets example_config (ok_env [Poll_Timeout]) blocking_socket zero_memory 0) =
     Some (blocking_socket\<lparr>rcvtimeo := (0, 500000), sndtimeo := (0, 500000)\<rparr>) \<and>
   rcvtimeo blocking_socket = (0, 0) \<and> sndtimeo blocking_socket = (0, 0)"
proof -
  have r: "restore_socket (ok_env [Poll_Timeout]) example_config 2 2050
       (blocking_socket\<lparr>fl := 2050\<rparr>) =
     (None, blocking_socket\<lparr>rcvtimeo := (0, 500000), sndtimeo := (0, 500000)\<rparr>)"
    by (simp add: restore_socket_ok timeval_of_500)
  show ?thesis
    by (simp add: timeout_call_on_blocking_socket returned_status_def socket_after_def
        shutdown_status shutdown_sock r)
       (simp add: blocking_socket_def)
qed

text \<open>
  C2, amended: after a call that ends with Success (0), Timeout (1) or TooManyMalformed
  (2), the flags of the socket are what they were before the call; its receive and send
  timeouts are untouched if the socket was non-blocking already, and are both the read
  timeout of the call otherwise.
\<close>

theorem socket_after_call:
  assumes "returned_status (capture_packets c en sk m pr) = Some st"
    and "st = 0 \<or> st = 1 \<or> st = 2"
  shows "socket_after (capture_packets c en sk m pr) =
     Some (if fl sk OR o_nonblock en = fl sk then sk
           else sk\<lparr>rcvtimeo := timeval_of_ms (network_operation_timeout_ms c),
                   sndtimeo := timeval_of_ms (network_operation_timeout_ms c)\<rparr>)"
proof -
  from assms(1) obtain out where cap: "capture_packets c en sk m pr = Some out"
    and st: "status out = st"
    by (auto simp: returned_status_def)
  from capture_Some [OF cap] assms(2) st
  obtain s rest where init: "getfl_errno en = None" "0 \<le> fl sk"
      "fl sk OR o_nonblock en \<noteq> fl sk \<longrightarrow> setfl_errno en = None"
    and ex: "receiving c (events en) (init_state c m) = Exited s rest"
    by auto
  let ?b = "fl sk" and ?r = "fl sk OR o_nonblock en"
  let ?sk1 = "if ?r \<noteq> ?b then sk\<lparr>fl := ?r\<rparr> else sk"
  have out: "out = shutdown en c ?b ?r ?sk1 s"
    using capture_after_init [OF init ex, of pr] cap by simp
  show ?thesis
  proof (cases "?r = ?b")
    case True
    then show ?thesis by (simp add: cap socket_after_def out shutdown_sock restore_socket_same)
  next
    case False
    have "restore_errno en = None"
      using assms(2) st False
      by (auto simp: out shutdown_status restore_socket_errno split: option.splits)
    then show ?thesis
      using False
      by (simp add: cap socket_after_def out shutdown_sock restore_socket_ok restore_errno_None)
  qed
qed

text \<open>The example of the specification, on a blocking socket: the call succeeds.\<close>

lemma example_call_status:
  "returned_status (capture_packets example_config (ok_env example_feed) blocking_socket m pr) =
     Some 0"
proof -
  obtain s where s: "receiving example_config example_feed (init_state example_config m) =
      Exited s []" "result s = 0"
    using example_feed_run [of m] by blast
  show ?thesis
    using capture_after_init [of "ok_env example_feed" blocking_socket example_config m s "[]" pr] s
    by (simp add: returned_status_def shutdown_status restore_socket_errno restore_errno_def)
qed

theorem socket_after_call_witness:
  "socket_after
     (capture_packets example_config (ok_env example_feed) blocking_socket zero_memory 0) =
     Some (blocking_socket\<lparr>rcvtimeo := (0, 500000), sndtimeo := (0, 500000)\<rparr>)"
  using socket_after_call [OF example_call_status [of zero_memory 0]]
  by (simp add: timeval_of_500)

subsection \<open>C3\<close>

text \<open>
  C3 says that a data packet of frame 0 from the camera is not counted and that none of
  its bytes is written to a slot. It is not counted, but \<^verbatim>\<open>recvfrom\<close> is given the
  payload region of the next free slot as its buffer, so the bytes are there before the
  loop looks at the frame number: after the packet, byte 5 of a zeroed buffer holds the
  packet's byte 4.
\<close>

theorem sentinel_packet_is_stored:
  "dst (init_state example_config zero_memory) 5 = 0 \<and>
   dst (state_of (loop_body example_config (Datagram (camera_ip example_config) sentinel_packet)
          (init_state example_config zero_memory))) 5 = 0xAA"
proof -
  let ?s = "init_state example_config zero_memory"
  have sp: "slot_payload ?s = 1" by (simp add: slot_payload_def)
  have "loop_body example_config (Datagram (camera_ip example_config) sentinel_packet) ?s =
      Continue ((received ?s sentinel_packet)\<lparr>incorrect_packets_length := 0\<rparr>)"
    by (simp add: loop_body_data sentinel_packet_facts Let_def)
  moreover have "dst (received ?s sentinel_packet) (slot_payload ?s + int 4) = sentinel_packet ! 4"
    by (rule received_read) (simp_all add: sentinel_packet_facts)
  ultimately show ?thesis by (simp add: init_state_zero sp sentinel_packet_facts)
qed

text \<open>
  C3, amended: a data packet of frame 0 from the camera is not counted, changes no marker
  byte and no byte outside the payload region of the next free slot, so no slot already
  filled; its 1472 bytes are stored in the payload region of the next free slot, where the
  next datagram is received.
\<close>

theorem sentinel_packet_effect:
  assumes "received_size bytes = DATA_PACKET_SIZE" and "frame_number_of bytes = 0"
  shows "\<exists>s'. loop_body c (Datagram (camera_ip c) bytes) s = Continue s' \<and>
     packets_received_loc s' = packets_received_loc s \<and>
     (\<forall>k. dst s' (k * 1473) = dst s (k * 1473)) \<and>
     (\<forall>a. a < slot_payload s \<or> slot_payload s + 1472 \<le> a \<longrightarrow> dst s' a = dst s a) \<and>
     (\<forall>i<1472. dst s' (slot_payload s + int i) = bytes ! i)"
proof -
  have len: "1472 \<le> length bytes" using assms(1) by (simp add: received_size_data)
  let ?s' = "(received s bytes)\<lparr>incorrect_packets_length := 0\<rparr>"
  have "loop_body c (Datagram (camera_ip c) bytes) s = Continue ?s'"
    using assms(2) by (simp add: loop_body_data [OF len] Let_def)
  moreover have "\<forall>k. dst ?s' (k * 1473) = dst s (k * 1473)"
    by (simp add: received_marker)
  moreover have "\<forall>a. a < slot_payload s \<or> slot_payload s + 1472 \<le> a \<longrightarrow> dst ?s' a = dst s a"
    by (simp add: received_outside)
  moreover have "\<forall>i<1472. dst ?s' (slot_payload s + int i) = bytes ! i"
    by (simp add: received_read [OF len])
  ultimately show ?thesis by (intro exI [of _ ?s']) simp
qed

theorem sentinel_packet_effect_witness:
  "packets_received_loc (state_of (loop_body example_config
       (Datagram (camera_ip example_config) sentinel_packet)
       (init_state example_config zero_memory))) = 0 \<and>
   dst (state_of (loop_body example_config
       (Datagram (camera_ip example_config) sentinel_packet)
       (init_state example_config zero_memory))) 1473 = 0"
  using sentinel_packet_effect [OF sentinel_packet_facts(1,2), of example_config
      "init_state example_config zero_memory"] init_state_zero [of example_config "1 * 1473"]
  by (auto simp: slot_payload_def DATA_PACKET_SIZE_def dest: spec [of _ 1])

subsection \<open>C4\<close>

text \<open>
  C4 says that every data packet from the camera whose frame number exceeds the wanted
  number of frames ends the loop with Success. The loop tests the frame number 0 and the
  offset first and skips the packet when they fail, whatever the frame number: with two
  frames wanted, a packet of frame 3 at the offset 1 leaves the loop running.
\<close>

theorem late_frame_with_bad_offset_is_skipped:
  "frames example_config < frame_number_of late_packet_bad_offset \<and>
   received_size late_packet_bad_offset = DATA_PACKET_SIZE \<and>
   exit_status (receiving example_config
     [Datagram (camera_ip example_config) late_packet_bad_offset]
     (init_state example_config zero_memory)) = None"
proof -
  let ?s = "init_state example_config zero_memory"
  have "loop_body example_config (Datagram (camera_ip example_config) late_packet_bad_offset) ?s =
      Continue ((received ?s late_packet_bad_offset)\<lparr>incorrect_packets_length := 0\<rparr>)"
    by (simp add: loop_body_data late_packet_bad_offset_facts Let_def)
  then show ?thesis
    by (simp add: late_packet_bad_offset_facts)
qed

text \<open>
  C4, amended: a data packet from the camera whose frame number exceeds the wanted number
  of frames and is not 0, and whose offset is a multiple of 1468 and at most
  \<open>1468 * (frame_packets - 1)\<close>, ends the loop with Success; it is not counted, and
  the count is that of the packets accepted before it.
\<close>

theorem frame_complete_exits:
  assumes "packets_received_loc s < dst_size c"
    and "received_size bytes = DATA_PACKET_SIZE"
    and "frames c < frame_number_of bytes"
    and "frame_number_of bytes \<noteq> 0"
    and "packet_offset_of bytes \<le> 1468 * (frame_packets c - 1)"
    and "packet_offset_of bytes mod 1468 = 0"
  shows "\<exists>s'. receiving c (Datagram (camera_ip c) bytes # rest) s = Exited s' rest \<and>
     result s' = 0 \<and> packets_received_loc s' = packets_received_loc s"
proof -
  have len: "1472 \<le> length bytes" using assms(2) by (simp add: received_size_data)
  let ?s' = "(received s bytes)\<lparr>incorrect_packets_length := 0, result := 0\<rparr>"
  have "loop_body c (Datagram (camera_ip c) bytes) s = Break ?s'"
    using assms(3-6) by (simp add: loop_body_data [OF len] Let_def)
  then have "receiving c (Datagram (camera_ip c) bytes # rest) s = Exited ?s' rest"
    using assms(1) by simp
  then show ?thesis by (intro exI [of _ ?s']) simp
qed

theorem frame_complete_exits_witness:
  "exit_status (receiving example_config
     [Datagram (camera_ip example_config) late_packet, Poll_Timeout]
     (init_state example_config zero_memory)) = Some 0"
proof -
  have "\<exists>s'. receiving example_config
     (Datagram (camera_ip example_config) late_packet # [Poll_Timeout])
     (init_state example_config zero_memory) = Exited s' [Poll_Timeout] \<and>
     result s' = 0 \<and>
     packets_received_loc s' = packets_received_loc (init_state example_config zero_memory)"
    by (rule frame_complete_exits) (simp_all add: late_packet_facts)
  then show ?thesis by auto
qed

subsection \<open>C5\<close>

text \<open>
  C5 says that on every exit from the loop the end of the call restores the flags and
  sets the read timeout as the receive and send timeout of the socket. The source does
  both only when it had to set \<^verbatim>\<open>O_NONBLOCK\<close> at the start: on a socket that was
  non-blocking already, a call that times out leaves the timeouts as they were, not at
  the read timeout.
\<close>

theorem timeout_not_applied_to_nonblocking_socket:
  "returned_status
     (capture_packets example_config (ok_env [Poll_Timeout]) nonblocking_socket zero_memory 0) =
     Some 1 \<and>
   socket_after
     (capture_packets example_config (ok_env [Poll_Timeout]) nonblocking_socket zero_memory 0) =
     Some nonblocking_socket \<and>
   rcvtimeo nonblocking_socket \<noteq> timeval_of_ms (network_operation_timeout_ms example_config)"
proof -
  have "receiving example_config (events (ok_env [Poll_Timeout]))
      (init_state example_config zero_memory) =
      Exited ((init_state example_config zero_memory)\<lparr>result := 1\<rparr>) []"
    unfolding ok_env_fields by (rule timeout_run)
  from capture_after_init [OF _ _ _ this, of nonblocking_socket 0] show ?thesis
    by (simp add: returned_status_def socket_after_def shutdown_status shutdown_sock
        restore_socket_same timeval_of_500)
       (simp add: nonblocking_socket_def)
qed

text \<open>
  C5, amended: on every exit from the loop of a call that had to set \<^verbatim>\<open>O_NONBLOCK\<close>
  at its start, the end of the call restores the flags read at the start and then sets
  the read timeout as the receive and send timeout of the socket, and whenever one of
  these calls fails the returned status is SystemError (\<open>-1\<close>), whatever the loop had
  computed; when all succeed, and when the socket was non-blocking already, in which case
  neither the flags nor the timeouts are touched, the returned status is the one the loop
  computed.
\<close>

theorem shutdown_restores_socket:
  assumes "getfl_errno en = None" and "0 \<le> fl sk"
    and "fl sk OR o_nonblock en \<noteq> fl sk \<longrightarrow> setfl_errno en = None"
    and "receiving c (events en) (init_state c m) = Exited s rest"
  shows "(fl sk OR o_nonblock en = fl sk \<longrightarrow>
       socket_after (capture_packets c en sk m pr) = Some sk \<and>
       returned_status (capture_packets c en sk m pr) = Some (result s)) \<and>
     (fl sk OR o_nonblock en \<noteq> fl sk \<and> restore_errno en = None \<longrightarrow>
       socket_after (capture_packets c en sk m pr) =
         Some (sk\<lparr>rcvtimeo := timeval_of_ms (network_operation_timeout_ms c),
                  sndtimeo := timeval_of_ms (network_operation_timeout_ms c)\<rparr>) \<and>
       returned_status (capture_packets c en sk m pr) = Some (result s)) \<and>
     (fl sk OR o_nonblock en \<noteq> fl sk \<and> restore_errno en \<noteq> None \<longrightarrow>
       returned_status (capture_packets c en sk m pr) = Some (- 1))"
proof -
  note cap = capture_after_init [OF assms, of pr]
  show ?thesis
  proof (intro conjI impI)
    assume same: "fl sk OR o_nonblock en = fl sk"
    show "socket_after (capture_packets c en sk m pr) = Some sk"
      using same by (simp add: cap socket_after_def shutdown_sock restore_socket_same)
    show "returned_status (capture_packets c en sk m pr) = Some (result s)"
      using same by (simp add: cap returned_status_def shutdown_status restore_socket_same)
  next
    assume ok: "fl sk OR o_nonblock en \<noteq> fl sk \<and> restore_errno en = None"
    then have calls: "restore_setfl_errno en = None" "rcvtimeo_errno en = None"
      "sndtimeo_errno en = None"
      by (simp_all add: restore_errno_None)
    show "socket_after (capture_packets c en sk m pr) =
         Some (sk\<lparr>rcvtimeo := timeval_of_ms (network_operation_timeout_ms c),
                  sndtimeo := timeval_of_ms (network_operation_timeout_ms c)\<rparr>)"
      using ok by (simp add: cap socket_after_def shutdown_sock restore_socket_ok calls)
    show "returned_status (capture_packets c en sk m pr) = Some (result s)"
      using ok by (simp add: cap returned_status_def shutdown_status restore_socket_errno)
  next
    assume "fl sk OR o_nonblock en \<noteq> fl sk \<and> restore_errno en \<noteq> None"
    then show "returned_status (capture_packets c en sk m pr) = Some (- 1)"
      by (auto simp: cap returned_status_def shutdown_status restore_socket_errno)
  qed
qed

lemma sndtimeo_fails_fields [simp]:
  "o_nonblock (sndtimeo_fails es) = 2048" "getfl_errno (sndtimeo_fails es) = None"
  "setfl_errno (sndtimeo_fails es) = None" "events (sndtimeo_fails es) = es"
  "restore_errno (sndtimeo_fails es) = Some 22"
  by (simp_all add: sndtimeo_fails_def restore_errno_def)

theorem shutdown_restores_socket_witness:
  "returned_status
     (capture_packets example_config (sndtimeo_fails [Poll_Timeout]) blocking_socket
        zero_memory 0) = Some (- 1)"
proof -
  have "receiving example_config (events (sndtimeo_fails [Poll_Timeout]))
      (init_state example_config zero_memory) =
      Exited ((init_state example_config zero_memory)\<lparr>result := 1\<rparr>) []"
    unfolding sndtimeo_fails_fields by (rule timeout_run)
  from shutdown_restores_socket [OF _ _ _ this, of blocking_socket 0] show ?thesis
    by simp
qed

subsection \<open>C6\<close>

text \<open>
  C6 says that, from a counter of malformed datagrams at 0, a run of threshold + 1
  datagrams whose size is neither 1472 nor 48 bytes, from any sender, ends the loop with
  TooManyMalformed. The loop sees the size \<^verbatim>\<open>recvfrom\<close> reports, and
  \<^verbatim>\<open>recvfrom\<close> is called with room for 1472 bytes and no flag: of a longer
  datagram it stores and reports 1472 bytes, and the loop takes it for a data packet. With
  the threshold 1, two datagrams of 2000 bytes from another sender leave the loop running
  and the counter at 0.
\<close>

lemma oversize_packet_size:
  "length oversize_packet = 2000" "received_size oversize_packet = DATA_PACKET_SIZE"
  by (simp_all add: oversize_packet_def received_size_data)

theorem oversize_datagrams_not_malformed:
  "length oversize_packet = 2000 \<and>
   max_incorrect_length_packets example_config = 1 \<and>
   exit_status (receiving example_config oversize_datagrams
     (init_state example_config zero_memory)) = None \<and>
   incorrect_packets_length (last_state (receiving example_config oversize_datagrams
     (init_state example_config zero_memory))) = 0"
proof -
  have foreign: "loop_body example_config (Datagram 7 oversize_packet) s =
      Continue (received s oversize_packet)" for s
    by (rule loop_body_foreign) (simp_all add: oversize_packet_size example_config_def)
  have "receiving example_config oversize_datagrams (init_state example_config zero_memory) =
      Waiting (received (received (init_state example_config zero_memory) oversize_packet)
        oversize_packet)"
    by (simp add: oversize_datagrams_def foreign)
  then show ?thesis by (simp add: oversize_packet_size)
qed

text \<open>
  C6, amended: with a threshold that is not negative and the counter of malformed
  datagrams at 0, a run of threshold + 1 received datagrams for which \<^verbatim>\<open>recvfrom\<close>
  reports a size that is neither 1472 nor 48 bytes (datagrams of fewer than 1472 bytes
  and not of 48 bytes), from any sender, ends the loop at the last of them with the
  result TooManyMalformed (2), and the count of received packets is what it was before
  the run.
\<close>

theorem malformed_run_aborts:
  assumes "0 \<le> max_incorrect_length_packets c"
    and "incorrect_packets_length s = 0"
    and "packets_received_loc s < dst_size c"
    and "list_all malformed es"
    and "int (length es) = max_incorrect_length_packets c + 1"
  shows "\<exists>s'. receiving c (es @ rest) s = Exited s' rest \<and> result s' = 2 \<and>
     packets_received_loc s' = packets_received_loc s"
proof -
  from assms(1,5) have "es \<noteq> []" by auto
  then obtain es' e where es: "es = es' @ [e]" by (metis rev_exhaust)
  with assms(4) have m': "list_all malformed es'" and "malformed e" by auto
  then obtain src bytes
    where e: "e = Datagram src bytes" and m: "malformed (Datagram src bytes)"
    by (cases e) auto
  have len: "int (length es') = max_incorrect_length_packets c" using assms(5) es by simp
  obtain s1 where s1: "receiving c (es' @ (e # rest)) s = receiving c (e # rest) s1"
    "packets_received_loc s1 = packets_received_loc s"
    "incorrect_packets_length s1 = max_incorrect_length_packets c"
    using malformed_run [OF m' assms(3), of "e # rest"] assms(2) len by auto
  let ?s2 = "(received s1 bytes)
    \<lparr>incorrect_packets_length := incorrect_packets_length s1 + 1, result := 2\<rparr>"
  have "loop_body c e s1 = Break ?s2"
    using s1(3) by (simp add: e loop_body_malformed [OF m] Let_def)
  then have "receiving c (e # rest) s1 = Exited ?s2 rest"
    using s1(2) assms(3) by simp
  then show ?thesis using s1 es by auto
qed

lemma short_datagrams_malformed: "list_all malformed short_datagrams"
  by (simp add: short_datagrams_def received_size_def DATA_PACKET_SIZE_def
      CONFIG_PACKET_SIZE_def)

theorem malformed_run_aborts_witness:
  "exit_status (receiving example_config (short_datagrams @ [Poll_Timeout])
     (init_state example_config zero_memory)) = Some 2"
proof -
  have "\<exists>s'. receiving example_config (short_datagrams @ [Poll_Timeout])
       (init_state example_config zero_memory) = Exited s' [Poll_Timeout] \<and> result s' = 2 \<and>
     packets_received_loc s' = packets_received_loc (init_state example_config zero_memory)"
    by (rule malformed_run_aborts)
       (simp_all add: short_datagrams_malformed, simp add: short_datagrams_def)
  then show ?thesis by auto
qed

subsection \<open>C7\<close>

text \<open>
  C7 says that whenever the call returns SystemError the count the caller reads is 0,
  and that it is the number of accepted packets on every other status. Where the call
  gets past its two \<^verbatim>\<open>fcntl\<close> calls this is \<open>count_after_loop\<close>. The two
  \<^verbatim>\<open>return -1\<close> at the start leave \<^verbatim>\<open>*packets_received\<close> as the caller had
  it: when reading the flags fails and the cell held 7, the call returns \<open>-1\<close> and
  the cell still holds 7.
\<close>

theorem early_return_keeps_stale_count:
  "returned_status (capture_packets example_config getfl_fails blocking_socket zero_memory 7) =
     Some (- 1) \<and>
   count_after (capture_packets example_config getfl_fails blocking_socket zero_memory 7) =
     Some 7"
  by (simp add: capture_packets_def getfl_fails_def ok_env_def fcntl_getfl_def
      returned_status_def count_after_def)

subsection \<open>C8\<close>

text \<open>
  C8: a command datagram is 8 bytes, the low bytes of the opcode and of the payload,
  five zero bytes and a checksum that is the sum of the first two bytes modulo 256. Stop
  is the opcode \<open>0x5A\<close> with the payload 0, Start the opcode \<open>0x5A\<close> with the low
  byte of \<open>format | 0x80\<close>, SetExposure the opcode \<open>0xC0\<close> with the exposure byte.
\<close>

theorem command_datagram_layout:
  "send_command_buf command data =
     [ucast command, ucast data, 0, 0, 0, 0, 0, ucast command + ucast data] \<and>
   length (send_command_buf command data) = 8 \<and>
   unat (send_command_buf command data ! 7) =
     (unat (send_command_buf command data ! 0) + unat (send_command_buf command data ! 1))
       mod 256 \<and>
   send_command_stop = [0x5a, 0x00, 0, 0, 0, 0, 0, 0x5a] \<and>
   send_command_start format =
     [0x5a, word_of_int (format OR 0x80), 0, 0, 0, 0, 0, 0x5a + word_of_int (format OR 0x80)] \<and>
   uint (send_command_start format ! 1) = (format OR 0x80) mod 256 \<and>
   send_command_exposure v = [0xc0, v, 0, 0, 0, 0, 0, 0xc0 + v]"
proof (intro conjI)
  show "send_command_buf command data =
     [ucast command, ucast data, 0, 0, 0, 0, 0, ucast command + ucast data]"
    by (rule send_command_buf_eq)
  show "length (send_command_buf command data) = 8"
    by (simp add: send_command_buf_eq)
  show "unat (send_command_buf command data ! 7) =
     (unat (send_command_buf command data ! 0) + unat (send_command_buf command data ! 1))
       mod 256"
    by (simp add: send_command_buf_eq unat_word_ariths)
  show "send_command_stop = [0x5a, 0x00, 0, 0, 0, 0, 0, 0x5a]"
    by (simp add: send_command_stop_def send_command_buf_eq)
  show st: "send_command_start format =
     [0x5a, word_of_int (format OR 0x80), 0, 0, 0, 0, 0, 0x5a + word_of_int (format OR 0x80)]"
    by (simp only: send_command_start_def send_command_buf_eq start_payload) simp
  show "uint (send_command_start format ! 1) = (format OR 0x80) mod 256"
    by (simp add: st uint_word_of_int)
  show "send_command_exposure v = [0xc0, v, 0, 0, 0, 0, 0, 0xc0 + v]"
    by (simp add: send_command_exposure_def send_command_buf_eq byte_round_trip)
qed

text \<open>
  The datagrams of a call that gets past its two \<^verbatim>\<open>fcntl\<close> calls: Stop, Start,
  SetExposure and, after the loop, Stop.
\<close>

lemma datagrams_of_a_call:
  assumes "getfl_errno en = None" and "0 \<le> fl sk"
    and "fl sk OR o_nonblock en \<noteq> fl sk \<longrightarrow> setfl_errno en = None"
    and "receiving c (events en) (init_state c m) = Exited s rest"
  shows "map_option sent (capture_packets c en sk m pr) =
     Some [send_command_stop, send_command_start (video_format c),
           send_command_exposure (exposure c), send_command_stop]"
  by (simp add: capture_after_init [OF assms] shutdown_sent)

subsection \<open>C9\<close>

text \<open>
  C9: a received datagram of 1472 or of 48 bytes from the camera leaves the counter of
  malformed datagrams at 0, also when the data packet is then skipped for its frame
  number 0 or its offset. So over any number of rounds, each a run of malformed datagrams
  no longer than the threshold followed by a skipped data packet from the camera, the
  loop is never left, the counter is back at 0 after every round and no packet is
  counted.
\<close>

theorem camera_packet_resets_malformed_run:
  "(camera_packet c e \<longrightarrow> incorrect_packets_length (state_of (loop_body c e s)) = 0) \<and>
   (list_all (round_ok c) rounds \<and> packets_received_loc s < dst_size c \<and>
    incorrect_packets_length s = 0 \<longrightarrow>
    exit_status (receiving c (round_events rounds) s) = None \<and>
    incorrect_packets_length (last_state (receiving c (round_events rounds) s)) = 0 \<and>
    packets_received_loc (last_state (receiving c (round_events rounds) s)) =
      packets_received_loc s)"
proof (intro conjI impI)
  show "incorrect_packets_length (state_of (loop_body c e s)) = 0" if "camera_packet c e"
    using that by (rule camera_packet_counter)
next
  assume a: "list_all (round_ok c) rounds \<and> packets_received_loc s < dst_size c \<and>
    incorrect_packets_length s = 0"
  then obtain s' where s': "receiving c (round_events rounds @ []) s = receiving c [] s'"
    "packets_received_loc s' = packets_received_loc s" "incorrect_packets_length s' = 0"
    using rounds_run [of c rounds s "[]"] by blast
  then have w: "receiving c (round_events rounds) s = Waiting s'" using a by simp
  show "exit_status (receiving c (round_events rounds) s) = None" by (simp add: w)
  show "incorrect_packets_length (last_state (receiving c (round_events rounds) s)) = 0"
    by (simp add: w s')
  show "packets_received_loc (last_state (receiving c (round_events rounds) s)) =
      packets_received_loc s" by (simp add: w s')
qed

lemma example_rounds_ok: "list_all (round_ok example_config) example_rounds"
  by (simp add: example_rounds_def round_ok_def from_camera_def sentinel_packet_facts
      late_packet_bad_offset_facts)
     (simp add: received_size_def DATA_PACKET_SIZE_def CONFIG_PACKET_SIZE_def)

theorem camera_packet_resets_malformed_run_witness:
  "incorrect_packets_length (state_of (loop_body example_config (from_camera sentinel_packet)
     ((init_state example_config zero_memory)\<lparr>incorrect_packets_length := 1\<rparr>))) = 0 \<and>
   exit_status (receiving example_config (round_events example_rounds)
     (init_state example_config zero_memory)) = None \<and>
   incorrect_packets_length (last_state (receiving example_config (round_events example_rounds)
     (init_state example_config zero_memory))) = 0"
  using camera_packet_resets_malformed_run [of example_config "from_camera sentinel_packet"
      "(init_state example_config zero_memory)\<lparr>incorrect_packets_length := 1\<rparr>"
      "[]"]
    camera_packet_resets_malformed_run [of example_config "from_camera sentinel_packet"
      "init_state example_config zero_memory" example_rounds]
  by (simp add: example_rounds_ok from_camera_def sentinel_packet_facts)

subsection \<open>C10\<close>

text \<open>
  C10: in a call that had to set \<^verbatim>\<open>O_NONBLOCK\<close> and whose restoration fails with
  the code \<open>e'\<close>, the returned status is \<open>-1\<close> and the code left in
  \<^verbatim>\<open>errno\<close> is the one the loop captured, if it captured one that is not 0, and
  \<open>e'\<close> only if it captured none. When the loop is left by a failure of
  \<^verbatim>\<open>poll\<close> or of \<^verbatim>\<open>recvfrom\<close> with a code \<open>e\<close> that is not 0, the code left
  in \<^verbatim>\<open>errno\<close> is \<open>e\<close>.
\<close>

theorem first_error_code_is_reported:
  assumes "getfl_errno en = None" and "0 \<le> fl sk"
    and "fl sk OR o_nonblock en \<noteq> fl sk" and "setfl_errno en = None"
    and "restore_errno en = Some e'"
  shows "(receiving c (events en) (init_state c m) = Exited s rest \<longrightarrow>
       returned_status (capture_packets c en sk m pr) = Some (- 1) \<and>
       errno_after (capture_packets c en sk m pr) =
         Some (if errno_loc s = 0 then e' else errno_loc s)) \<and>
     (receiving c pre (init_state c m) = Waiting s1 \<and> events en = pre @ ev # rest' \<and>
      (ev = Poll_Error e \<or> ev = Recv_Error e) \<and> e \<noteq> 0 \<longrightarrow>
       errno_after (capture_packets c en sk m pr) = Some e)"
proof -
  have general: "returned_status (capture_packets c en sk m pr) = Some (- 1) \<and>
       errno_after (capture_packets c en sk m pr) =
         Some (if errno_loc t = 0 then e' else errno_loc t)"
    if "receiving c (events en) (init_state c m) = Exited t rest" for t rest
    using assms(3,5)
    by (simp add: capture_after_init [OF assms(1,2) _ that] assms(4) returned_status_def
        errno_after_def shutdown_status shutdown_errno restore_socket_errno)
  show ?thesis
  proof (intro conjI impI)
    assume "receiving c (events en) (init_state c m) = Exited s rest"
    from general [OF this]
    show "returned_status (capture_packets c en sk m pr) = Some (- 1)"
      and "errno_after (capture_packets c en sk m pr) =
         Some (if errno_loc s = 0 then e' else errno_loc s)"
      by simp_all
  next
    assume a: "receiving c pre (init_state c m) = Waiting s1 \<and> events en = pre @ ev # rest' \<and>
      (ev = Poll_Error e \<or> ev = Recv_Error e) \<and> e \<noteq> 0"
    then have "receiving c (events en) (init_state c m) =
        Exited (s1\<lparr>result := - 1, errno_loc := e\<rparr>) rest'"
      using receiving_error_exit [of c pre "init_state c m" s1 ev e rest'] by simp
    from general [OF this] a
    show "errno_after (capture_packets c en sk m pr) = Some e" by simp
  qed
qed

lemma restore_fails_fields [simp]:
  "o_nonblock (restore_fails es) = 2048" "getfl_errno (restore_fails es) = None"
  "setfl_errno (restore_fails es) = None" "events (restore_fails es) = es"
  "restore_errno (restore_fails es) = Some 9"
  by (simp_all add: restore_fails_def restore_errno_def)

theorem first_error_code_is_reported_witness:
  "errno_after (capture_packets example_config (restore_fails [Recv_Error 4]) blocking_socket
     zero_memory 0) = Some 4 \<and>
   errno_after (capture_packets example_config (restore_fails [Poll_Timeout]) blocking_socket
     zero_memory 0) = Some 9"
proof -
  have w: "receiving example_config [] (init_state example_config zero_memory) =
      Waiting (init_state example_config zero_memory)"
    by simp
  have t: "receiving example_config (events (restore_fails [Poll_Timeout]))
      (init_state example_config zero_memory) =
      Exited ((init_state example_config zero_memory)\<lparr>result := 1\<rparr>) []"
    unfolding restore_fails_fields by (rule timeout_run)
  show ?thesis
    using first_error_code_is_reported [where en = "restore_fails [Recv_Error 4]"
        and sk = blocking_socket and e' = 9 and c = example_config and m = zero_memory
        and pr = 0 and pre = "[]" and ?s1.0 = "init_state example_config zero_memory"
        and ev = "Recv_Error 4" and rest' = "[]" and e = 4]
      first_error_code_is_reported [where en = "restore_fails [Poll_Timeout]"
        and sk = blocking_socket and e' = 9 and c = example_config and m = zero_memory
        and pr = 0 and rest = "[]"
        and s = "(init_state example_config zero_memory)\<lparr>result := 1\<rparr>"]
      w t
    by simp
qed

end
